theory Spec2Isabelle
  imports Complex_Main "HOL-Library.Log_Nat" "HOL-Library.Word"
begin

section \<open>Python arithmetic used by the resizer\<close>

text \<open>
  \<^verbatim>\<open>resize_image\<close> computes the short side as \<^verbatim>\<open>int(height * (max_size / width))\<close>.
  In Python, \<^verbatim>\<open>/\<close> on two integers is true division: the quotient is rounded
  correctly to a binary64 double. \<^verbatim>\<open>int * float\<close> converts the integer to a double and
  multiplies, again with one correct rounding (round to nearest, ties to even), and
  \<^verbatim>\<open>int(x)\<close> truncates toward zero. A finite double is a rational number, so the
  doubles are modelled as the rationals that \<open>round_double\<close> returns.
\<close>

text \<open>
  Exceptions are values. \<open>External\<close> stands for whatever a library call raises and
  carries the text that \<^verbatim>\<open>str(e)\<close> returns; the two other constructors are the
  exceptions that the arithmetic of \<^verbatim>\<open>resize_image\<close> itself can raise.
\<close>

datatype exn =
    ZeroDivisionError
  | OverflowError string
  | External string

fun str :: "exn \<Rightarrow> string" where
  "str ZeroDivisionError = ''division by zero''"
| "str (OverflowError m) = m"
| "str (External m) = m"

text \<open>
  \<open>ilog2 x\<close> is the binary exponent of a positive rational, found from the bit
  lengths of its numerator and denominator. \<open>round_double\<close> rounds to 53 significant
  bits, or to a multiple of \<open>2^-1074\<close> in the subnormal range, ties to even. A result
  of magnitude \<open>2^1024\<close> or more does not fit a double: true division and the
  conversion of an integer raise \<^verbatim>\<open>OverflowError\<close>, a product becomes infinite and
  \<^verbatim>\<open>int\<close> of it raises.
\<close>

definition pow2 :: "int \<Rightarrow> rat" where
  "pow2 k = 2 powi k"

definition ilog2 :: "rat \<Rightarrow> int" where
  "ilog2 x =
     (let (a, b) = quotient_of x; d = bitlen a - bitlen b
      in if pow2 d \<le> x then d else d - 1)"

definition round_half_even :: "rat \<Rightarrow> int" where
  "round_half_even r =
     (let f = \<lfloor>r\<rfloor>; d = r - of_int f
      in if d < 1 / 2 then f
         else if 1 / 2 < d then f + 1
         else if even f then f else f + 1)"

definition round_double :: "rat \<Rightarrow> rat" where
  "round_double x =
     (if x = 0 then 0
      else let q = max (ilog2 \<bar>x\<bar> - 52) (- 1074)
           in of_int (round_half_even (x / pow2 q)) * pow2 q)"

definition overflows :: "rat \<Rightarrow> bool" where
  "overflows r \<longleftrightarrow> 2 ^ 1024 \<le> \<bar>r\<bar>"

datatype double = Finite rat | Infinite

definition int_truediv :: "int \<Rightarrow> int \<Rightarrow> exn + rat" where
  "int_truediv a b =
     (if b = 0 then Inl ZeroDivisionError
      else let r = round_double (of_int a / of_int b)
           in if overflows r
              then Inl (OverflowError ''integer division result too large for a float'')
              else Inr r)"

definition int_mul_float :: "int \<Rightarrow> rat \<Rightarrow> exn + double" where
  "int_mul_float n f =
     (let nf = round_double (of_int n)
      in if overflows nf then Inl (OverflowError ''int too large to convert to float'')
         else let p = round_double (nf * f)
              in Inr (if overflows p then Infinite else Finite p))"

definition float_to_int :: "double \<Rightarrow> exn + int" where
  "float_to_int x =
     (case x of
        Infinite \<Rightarrow> Inl (OverflowError ''cannot convert float infinity to integer'')
      | Finite r \<Rightarrow> Inr (if 0 \<le> r then \<lfloor>r\<rfloor> else \<lceil>r\<rceil>))"

text \<open>
  The two branches of \<^verbatim>\<open>resize_image\<close> compute the new sizes:
  \<^verbatim>\<open>
    if width > height:
        new_width = max_size
        new_height = int(height * (max_size / width))
    else:
        new_height = max_size
        new_width = int(width * (max_size / height))
  \<close>
  \<open>scale_side side max_size longer\<close> is \<^verbatim>\<open>int(side * (max_size / longer))\<close>, and
  \<open>new_size\<close> is the pair \<^verbatim>\<open>(new_width, new_height)\<close> handed to the library.
\<close>

definition scale_side :: "int \<Rightarrow> int \<Rightarrow> int \<Rightarrow> exn + int" where
  "scale_side side max_size longer =
     (case int_truediv max_size longer of
        Inl e \<Rightarrow> Inl e
      | Inr ratio \<Rightarrow>
          (case int_mul_float side ratio of
             Inl e \<Rightarrow> Inl e
           | Inr p \<Rightarrow> float_to_int p))"

definition new_size :: "int \<Rightarrow> int \<Rightarrow> int \<Rightarrow> exn + int \<times> int" where
  "new_size width height max_size =
     (if width > height
      then (case scale_side height max_size width of
              Inl e \<Rightarrow> Inl e
            | Inr new_height \<Rightarrow> Inr (max_size, new_height))
      else (case scale_side width max_size height of
              Inl e \<Rightarrow> Inl e
            | Inr new_width \<Rightarrow> Inr (new_width, max_size)))"

section \<open>Rasters and the resizer\<close>

text \<open>
  A decoded image carries its size and its RGBA buffer. \<^verbatim>\<open>Image.resize\<close> with the
  Lanczos filter belongs to the imaging library: \<open>resize_image\<close> takes it as the
  parameter \<open>resample\<close>, which may raise like any library call.
  \<^verbatim>\<open>
    width, height = image.size
    if width <= max_size and height <= max_size:
        return image
    ...
    return image.resize((new_width, new_height), Image.LANCZOS)
  \<close>
\<close>

type_synonym byte = "8 word"

record raster =
  width :: int
  height :: int
  pixels :: "byte list"

definition resize_image ::
  "(raster \<Rightarrow> int \<times> int \<Rightarrow> exn + raster) \<Rightarrow> raster \<Rightarrow> int \<Rightarrow> exn + raster" where
  "resize_image resample img max_size =
     (if width img \<le> max_size \<and> height img \<le> max_size then Inr img
      else (case new_size (width img) (height img) max_size of
              Inl e \<Rightarrow> Inl e
            | Inr sz \<Rightarrow> resample img sz))"

section \<open>The page, the log and the pipeline\<close>

text \<open>
  The Streamlit calls are effects on the page shown to the user; \<^verbatim>\<open>print\<close> writes to
  the server's standard output, which only the operator reads. A session records, in
  order, the elements put on the page, the lines printed, and the collaborator stages
  entered. The pictographs that start some of the source's messages are left out of
  the strings. The decoder, the resampling filter, the removal model and the PNG
  encoder are library code: they are the fields of \<open>collaborators\<close>, each a function
  that returns a value or raises.

  The status texts are the constructors of \<open>status\<close>: \<^verbatim>\<open>Reading image...\<close>,
  \<^verbatim>\<open>Processing image...\<close>, \<^verbatim>\<open>Displaying result...\<close> and
  \<^verbatim>\<open>Completed in {t:.2f} seconds\<close>, the last one carrying the double \<open>t\<close>.
  \<open>Progress\<close> is a value given to the progress bar, \<open>Picture\<close> an image with its
  caption, and \<open>DownloadButton\<close> has the label, the data, the file name and the MIME
  type. The size of an upload is the length of its byte buffer.
\<close>

datatype status = Reading | Processing | Displaying | Completed rat

datatype element =
    Error string
  | SidebarError string
  | Info string
  | Progress int
  | Status status
  | Picture raster string
  | DownloadButton string "byte list" string string

datatype printed = Traceback exn

datatype stage = Decode | Resize | Remove | Encode

record session =
  page :: "element list"
  stdout :: "printed list"
  calls :: "stage list"

record uploaded_file =
  file_name :: string
  file_data :: "byte list"

record collaborators =
  decode :: "byte list \<Rightarrow> exn + raster"
  lanczos :: "raster \<Rightarrow> int \<times> int \<Rightarrow> exn + raster"
  remove :: "raster \<Rightarrow> exn + raster"
  save_png :: "raster \<Rightarrow> exn + byte list"

definition MAX_FILE_SIZE :: int where
  "MAX_FILE_SIZE = 10 * 1024 * 1024"

definition MAX_IMAGE_SIZE :: int where
  "MAX_IMAGE_SIZE = 2000"

definition file_size :: "uploaded_file \<Rightarrow> int" where
  "file_size f = int (length (file_data f))"

definition emit :: "element \<Rightarrow> session \<Rightarrow> session" where
  "emit el s = s\<lparr>page := page s @ [el]\<rparr>"

definition print_line :: "printed \<Rightarrow> session \<Rightarrow> session" where
  "print_line l s = s\<lparr>stdout := stdout s @ [l]\<rparr>"

definition enter :: "stage \<Rightarrow> session \<Rightarrow> session" where
  "enter st s = s\<lparr>calls := calls s @ [st]\<rparr>"

text \<open>
  \<open>processing_error\<close> is the handler of \<^verbatim>\<open>process_image\<close>:
  \<^verbatim>\<open>
    except Exception as e:
        st.error(f"Image processing error: {str(e)}")
        return None, None
  \<close>
  and \<open>unexpected_error\<close> is the handler of \<^verbatim>\<open>fix_image\<close>:
  \<^verbatim>\<open>
    except Exception as e:
        st.error("An unexpected error occurred.")
        st.sidebar.error("Processing failed.")
        print(traceback.format_exc())
  \<close>
  Inside \<^verbatim>\<open>fix_image\<close> the only collaborator called outside \<^verbatim>\<open>process_image\<close> is
  the PNG encoder, so that is where the second handler can be reached.
  \<open>show_result\<close> is the part of \<^verbatim>\<open>fix_image\<close> after the test for \<^verbatim>\<open>None\<close>.
  The two readings of \<^verbatim>\<open>time.time()\<close>, at the start and in the last status text, are
  the arguments \<open>start\<close> and \<open>finish\<close>; \<open>app\<close> is the script after the upload widget.
\<close>

definition convert_image :: "collaborators \<Rightarrow> raster \<Rightarrow> exn + byte list" where
  "convert_image env img = save_png env img"

definition processing_error ::
  "exn \<Rightarrow> session \<Rightarrow> (raster option \<times> raster option) \<times> session" where
  "processing_error e s =
     ((None, None), emit (Error (''Image processing error: '' @ str e)) s)"

definition process_image ::
  "collaborators \<Rightarrow> byte list \<Rightarrow> session \<Rightarrow> (raster option \<times> raster option) \<times> session" where
  "process_image env image_bytes s =
     (let s1 = enter Decode s in
      case decode env image_bytes of
        Inl e \<Rightarrow> processing_error e s1
      | Inr img \<Rightarrow>
          (let s2 = enter Resize s1 in
           case resize_image (lanczos env) img MAX_IMAGE_SIZE of
             Inl e \<Rightarrow> processing_error e s2
           | Inr resized \<Rightarrow>
               (let s3 = enter Remove s2 in
                case remove env resized of
                  Inl e \<Rightarrow> processing_error e s3
                | Inr result \<Rightarrow> ((Some img, Some result), s3))))"

definition unexpected_error :: "exn \<Rightarrow> session \<Rightarrow> session" where
  "unexpected_error e s =
     print_line (Traceback e)
       (emit (SidebarError ''Processing failed.'')
          (emit (Error ''An unexpected error occurred.'') s))"

definition show_result ::
  "collaborators \<Rightarrow> raster \<Rightarrow> raster \<Rightarrow> rat \<Rightarrow> rat \<Rightarrow> session \<Rightarrow> session" where
  "show_result env original removed start finish s =
     (let s1 = emit (Status Displaying) (emit (Progress 90) s);
          s2 = emit (Picture removed ''Background Removed'')
                 (emit (Picture original ''Original Image'') s1);
          s3 = enter Encode s2
      in case convert_image env removed of
           Inl e \<Rightarrow> unexpected_error e s3
         | Inr data \<Rightarrow>
             (let s4 = emit (DownloadButton ''Download Output (PNG)'' data
                               ''removed_background.png'' ''image/png'') s3;
                  s5 = emit (Progress 100) s4
              in emit (Status (Completed (round_double (finish - start)))) s5))"

definition fix_image ::
  "collaborators \<Rightarrow> uploaded_file \<Rightarrow> rat \<Rightarrow> rat \<Rightarrow> session \<Rightarrow> session" where
  "fix_image env uploaded start finish s =
     (let s1 = emit (Progress 0) s;
          s2 = emit (Progress 10) (emit (Status Reading) s1);
          image_bytes = file_data uploaded;
          s3 = emit (Progress 30) (emit (Status Processing) s2)
      in case process_image env image_bytes s3 of
           ((Some original, Some removed), s4) \<Rightarrow>
              show_result env original removed start finish s4
         | (_, s4) \<Rightarrow> s4)"

definition app ::
  "collaborators \<Rightarrow> uploaded_file option \<Rightarrow> rat \<Rightarrow> rat \<Rightarrow> session \<Rightarrow> session" where
  "app env uploaded start finish s =
     (case uploaded of
        None \<Rightarrow> emit (Info ''Upload an image from the sidebar to begin.'') s
      | Some f \<Rightarrow>
          if file_size f > MAX_FILE_SIZE
          then emit (Error ''File too large. Please upload an image smaller than 10MB.'') s
          else fix_image env f start finish s)"

text \<open>
  \<^verbatim>\<open>@st.cache_data\<close> memoises \<open>process_image\<close> on its argument: a stored pair is
  returned without running the body, otherwise the body runs and its pair is stored.
  \<open>fix_image\<close> above is a run in which the body executes; the memoised function is
  modelled on the returned pair.
\<close>

definition blank :: session where
  "blank = \<lparr>page = [], stdout = [], calls = []\<rparr>"

type_synonym cache = "byte list \<rightharpoonup> raster option \<times> raster option"

definition cached_process_image ::
  "collaborators \<Rightarrow> cache \<Rightarrow> byte list \<Rightarrow> (raster option \<times> raster option) \<times> cache" where
  "cached_process_image env cache image_bytes =
     (case cache image_bytes of
        Some r \<Rightarrow> (r, cache)
      | None \<Rightarrow>
          (let r = fst (process_image env image_bytes blank)
           in (r, cache(image_bytes \<mapsto> r))))"

definition progress_values :: "element list \<Rightarrow> int list" where
  "progress_values els = concat (map (\<lambda>el. case el of Progress p \<Rightarrow> [p] | _ \<Rightarrow> []) els)"

fun is_output :: "element \<Rightarrow> bool" where
  "is_output (Picture img caption) = True"
| "is_output (DownloadButton label content name mime) = True"
| "is_output el = False"

text \<open>
  Stand-ins for the library collaborators, used in the worked examples: a resampling
  filter that returns an empty raster of the requested size, and an encoder that
  returns the pixel buffer.
\<close>

definition example_resample :: "raster \<Rightarrow> int \<times> int \<Rightarrow> exn + raster" where
  "example_resample img sz = Inr \<lparr>width = fst sz, height = snd sz, pixels = []\<rparr>"

definition example_env ::
  "(byte list \<Rightarrow> exn + raster) \<Rightarrow> (raster \<Rightarrow> exn + raster) \<Rightarrow> collaborators" where
  "example_env dec rem =
     \<lparr>decode = dec, lanczos = example_resample, remove = rem,
      save_png = (\<lambda>img. Inr (pixels img))\<rparr>"

section \<open>Rounding to a double: error bounds\<close>

lemma pow2_pos: "0 < pow2 k"
  by (simp add: pow2_def)

lemma pow2_add: "pow2 (a + b) = pow2 a * pow2 b"
  by (simp add: pow2_def power_int_add)

lemma pow2_mono: "a \<le> b \<Longrightarrow> pow2 a \<le> pow2 b"
  by (simp add: pow2_def power_int_increasing)

lemma pow2_strict_mono: "a < b \<Longrightarrow> pow2 a < pow2 b"
  by (simp add: pow2_def power_int_strict_increasing)

lemma pow2_less_cancel: "pow2 a < pow2 b \<Longrightarrow> a < b"
  using pow2_mono [of b a] by (cases "a < b") auto

lemma pow2_nat: "pow2 (int n) = 2 ^ n"
  by (simp add: pow2_def)

lemma pow2_neg_nat: "pow2 (- int n) = 1 / 2 ^ n"
  by (simp add: pow2_def power_int_minus_divide)

lemma bitlen_rat_bounds:
  assumes "0 < a"
  shows "pow2 (bitlen a - 1) \<le> of_int a" and "of_int a < pow2 (bitlen a)"
proof -
  have b: "2 ^ nat (bitlen a - 1) \<le> a \<and> a < 2 ^ nat (bitlen a)"
    using bitlen_bounds [OF assms] .
  have pos: "1 \<le> bitlen a"
    using assms bitlen_eq_zero_iff [of a] bitlen_nonneg [of a] by linarith
  have "(of_int (2 ^ nat (bitlen a - 1)) :: rat) \<le> of_int a"
    using b by (simp only: of_int_le_iff)
  then show "pow2 (bitlen a - 1) \<le> of_int a"
    using pos by (simp add: pow2_def power_int_nonneg_exp)
  have "(of_int a :: rat) < of_int (2 ^ nat (bitlen a))"
    using b by (simp only: of_int_less_iff)
  then show "of_int a < pow2 (bitlen a)"
    using pos by (simp add: pow2_def power_int_nonneg_exp)
qed

lemma ilog2_bounds:
  assumes "0 < x"
  shows "pow2 (ilog2 x) \<le> x" and "x < pow2 (ilog2 x + 1)"
proof -
  obtain a b where q: "quotient_of x = (a, b)" by (cases "quotient_of x")
  have bpos: "0 < b" using q by (rule quotient_of_denom_pos)
  have x: "x = of_int a / of_int b" using q by (rule quotient_of_div)
  have apos: "0 < a"
    using assms bpos x by (simp add: zero_less_divide_iff)
  define d where "d = bitlen a - bitlen b"
  have lo: "pow2 (d - 1) \<le> x"
  proof -
    have "pow2 (d - 1) * of_int b \<le> pow2 (d - 1) * pow2 (bitlen b)"
      using bitlen_rat_bounds(2) [OF bpos] pow2_pos [of "d - 1"] by simp
    also have "\<dots> = pow2 (bitlen a - 1)"
      by (simp add: d_def pow2_add [symmetric])
    also have "\<dots> \<le> of_int a" using bitlen_rat_bounds(1) [OF apos] .
    finally show ?thesis using bpos by (simp add: x pos_le_divide_eq)
  qed
  have hi: "x < pow2 (d + 1)"
  proof -
    have "of_int a < pow2 (bitlen a)" using bitlen_rat_bounds(2) [OF apos] .
    also have "\<dots> = pow2 (d + 1) * pow2 (bitlen b - 1)"
      by (simp add: d_def pow2_add [symmetric])
    also have "\<dots> \<le> pow2 (d + 1) * of_int b"
      using bitlen_rat_bounds(1) [OF bpos] pow2_pos [of "d + 1"] by simp
    finally show ?thesis using bpos by (simp add: x pos_divide_less_eq)
  qed
  have e: "ilog2 x = (if pow2 d \<le> x then d else d - 1)"
    by (simp add: ilog2_def q d_def Let_def)
  show "pow2 (ilog2 x) \<le> x" using lo by (simp add: e)
  show "x < pow2 (ilog2 x + 1)" using hi by (auto simp: e not_le)
qed

lemma ilog2_unique:
  assumes "pow2 e \<le> x" "x < pow2 (e + 1)"
  shows "ilog2 x = e"
proof -
  have xpos: "0 < x" using assms(1) pow2_pos [of e] by linarith
  have "pow2 (ilog2 x) < pow2 (e + 1)"
    using ilog2_bounds(1) [OF xpos] assms(2) by linarith
  then have a: "ilog2 x < e + 1" by (rule pow2_less_cancel)
  have "pow2 e < pow2 (ilog2 x + 1)"
    using ilog2_bounds(2) [OF xpos] assms(1) by linarith
  then have "e < ilog2 x + 1" by (rule pow2_less_cancel)
  with a show ?thesis by linarith
qed

lemma round_half_even_error: "\<bar>of_int (round_half_even r) - r\<bar> \<le> 1 / 2"
proof -
  have "of_int \<lfloor>r\<rfloor> \<le> r" "r < of_int \<lfloor>r\<rfloor> + 1" by linarith+
  then show ?thesis
    by (auto simp: round_half_even_def Let_def)
qed

lemma round_half_even_of_int: "round_half_even (of_int k) = k"
  by (simp add: round_half_even_def Let_def)

lemma round_double_error:
  assumes "pow2 (- 1022) \<le> x"
  shows "\<bar>round_double x - x\<bar> \<le> x * pow2 (- 53)"
proof -
  have xpos: "0 < x" using assms pow2_pos [of "- 1022"] by linarith
  define e where "e = ilog2 x"
  have lo: "pow2 e \<le> x" and hi: "x < pow2 (e + 1)"
    using ilog2_bounds [OF xpos] by (simp_all add: e_def)
  have "pow2 (- 1022) < pow2 (e + 1)" using assms hi by linarith
  then have e: "- 1022 < e + 1" by (rule pow2_less_cancel)
  define q where "q = e - 52"
  define m where "m = round_half_even (x / pow2 q)"
  have mq: "max (e - 52) (- 1074) = q" using e unfolding q_def by linarith
  have rd: "round_double x = of_int m * pow2 q"
    using xpos by (simp add: round_double_def Let_def e_def [symmetric] mq m_def)
  have "\<bar>of_int m - x / pow2 q\<bar> \<le> 1 / 2"
    unfolding m_def by (rule round_half_even_error)
  then have "\<bar>of_int m - x / pow2 q\<bar> * pow2 q \<le> 1 / 2 * pow2 q"
    using pow2_pos [of q] by (simp add: mult_right_mono)
  moreover have "\<bar>of_int m - x / pow2 q\<bar> * pow2 q = \<bar>of_int m * pow2 q - x\<bar>"
  proof -
    have "\<bar>of_int m - x / pow2 q\<bar> * pow2 q = \<bar>(of_int m - x / pow2 q) * pow2 q\<bar>"
      using pow2_pos [of q] by (simp add: abs_mult)
    also have "(of_int m - x / pow2 q) * pow2 q = of_int m * pow2 q - x"
      using pow2_pos [of q] by (simp add: left_diff_distrib)
    finally show ?thesis .
  qed
  moreover have "1 / 2 * pow2 q = pow2 e * pow2 (- 53)"
  proof -
    have "pow2 q = pow2 e * pow2 (- 52)" by (simp add: q_def pow2_add [symmetric])
    moreover have "pow2 (- 52) = 2 * pow2 (- 53)"
      by (simp add: pow2_def power_int_minus_divide)
    ultimately show ?thesis by simp
  qed
  moreover have "pow2 e * pow2 (- 53) \<le> x * pow2 (- 53)"
    using lo pow2_pos [of "- 53"] by (simp add: mult_right_mono)
  ultimately show ?thesis by (simp add: rd)
qed

lemma round_double_of_int:
  assumes "\<bar>n\<bar> < 2 ^ 53"
  shows "round_double (of_int n) = of_int n"
proof (cases "n = 0")
  case True
  then show ?thesis by (simp add: round_double_def)
next
  case False
  define x :: rat where "x = \<bar>of_int n\<bar>"
  have x1: "1 \<le> x" using False by (simp add: x_def flip: of_int_abs)
  have x2: "x < 2 ^ 53"
  proof -
    have "(of_int \<bar>n\<bar> :: rat) < of_int (2 ^ 53)" using assms by (simp only: of_int_less_iff)
    then show ?thesis by (simp add: x_def)
  qed
  define e where "e = ilog2 x"
  have xpos: "0 < x" using x1 by linarith
  have lo: "pow2 e \<le> x" and hi: "x < pow2 (e + 1)"
    using ilog2_bounds [OF xpos] by (simp_all add: e_def)
  have "pow2 e < pow2 53" using lo x2 by (simp add: pow2_def)
  then have e53: "e < 53" by (rule pow2_less_cancel)
  have "pow2 0 < pow2 (e + 1)" using hi x1 by (simp add: pow2_def)
  then have e0: "0 < e + 1" by (rule pow2_less_cancel)
  define k where "k = nat (52 - e)"
  have q: "max (e - 52) (- 1074) = - int k" using e53 e0 by (simp add: k_def max_def)
  have p: "pow2 (- int k) = 1 / 2 ^ k" by (rule pow2_neg_nat)
  have "of_int n / pow2 (- int k) = (of_int (n * 2 ^ k) :: rat)"
    by (simp add: p)
  then have "round_half_even (of_int n / pow2 (- int k)) = n * 2 ^ k"
    by (simp only: round_half_even_of_int)
  then show ?thesis
    using False by (simp add: round_double_def Let_def x_def [symmetric] e_def [symmetric] q p)
qed

lemma round_double_bounds:
  assumes "pow2 (- 1022) \<le> x"
  shows "x - x / 2 ^ 53 \<le> round_double x" and "round_double x \<le> x + x / 2 ^ 53"
proof -
  have e: "pow2 (- 53) = 1 / 2 ^ 53" by (simp add: pow2_def power_int_minus_divide)
  have "\<bar>round_double x - x\<bar> \<le> x * (1 / 2 ^ 53)"
    using round_double_error [OF assms] by (simp only: e)
  also have "x * (1 / 2 ^ 53) = x / 2 ^ 53" by simp
  finally have "\<bar>round_double x - x\<bar> \<le> x / 2 ^ 53" .
  then show "x - x / 2 ^ 53 \<le> round_double x" and "round_double x \<le> x + x / 2 ^ 53"
    by linarith+
qed

lemma scale_side_bounds:
  assumes a: "1 \<le> a" and ab: "a \<le> b" and M: "1 \<le> M"
    and aM: "a * M < 2 ^ 51" and b: "b \<le> 2 ^ 1000"
  shows "\<exists>s. scale_side a M b = Inr s \<and> 0 \<le> s \<and> s * b \<le> a * M \<and> a * M \<le> (s + 1) * b"
proof -
  define A :: rat where "A = of_int a"
  define B :: rat where "B = of_int b"
  define Mq :: rat where "Mq = of_int M"
  define X :: rat where "X = of_int (a * M)"
  have A1: "1 \<le> A" using a by (simp add: A_def)
  have B1: "1 \<le> B" using a ab by (simp add: B_def)
  have M1: "1 \<le> Mq" using M by (simp add: Mq_def)
  have XAM: "X = A * Mq" by (simp add: X_def A_def Mq_def)
  have X51: "X < 2 ^ 51"
  proof -
    have "(of_int (a * M) :: rat) < of_int (2 ^ 51)" using aM by (simp only: of_int_less_iff)
    then show ?thesis by (simp add: X_def)
  qed
  have Bhi: "B \<le> 2 ^ 1000"
  proof -
    have "(of_int b :: rat) \<le> of_int (2 ^ 1000)" using b by (simp only: of_int_le_iff)
    then show ?thesis by (simp add: B_def)
  qed
  have MX: "Mq \<le> X" using A1 M1 by (simp add: XAM mult_le_cancel_right1)
  have AX: "A \<le> X" using A1 M1 by (simp add: XAM mult_le_cancel_left1)
  define y where "y = Mq / B"
  have yB: "y * B = Mq" using B1 by (simp add: y_def)
  have ypos: "0 < y" using M1 B1 by (simp add: y_def)
  have yM: "y \<le> Mq" using M1 B1 by (simp add: y_def pos_divide_le_eq mult_le_cancel_left1)
  have ylo: "1 / 2 ^ 1000 \<le> y"
  proof -
    have "1 / 2 ^ 1000 \<le> 1 / B" using Bhi B1 by (simp add: frac_le)
    also have "\<dots> \<le> y" using M1 B1 by (simp add: y_def divide_right_mono)
    finally show ?thesis .
  qed
  have p1000: "pow2 (- 1000) = 1 / 2 ^ 1000" by (simp add: pow2_def power_int_minus_divide)
  have p1001: "pow2 (- 1001) = 1 / 2 ^ 1001" by (simp add: pow2_def power_int_minus_divide)
  have ynorm: "pow2 (- 1022) \<le> y"
    using pow2_mono [of "- 1022" "- 1000"] ylo p1000 by simp
  define r where "r = round_double y"
  have rlo: "y - y / 2 ^ 53 \<le> r" and rhi: "r \<le> y + y / 2 ^ 53"
    using round_double_bounds [OF ynorm] by (simp_all add: r_def)
  have rpos: "0 < r" and r_half: "y / 2 \<le> r" and r2: "r \<le> 2 * y"
    using rlo rhi ypos by simp_all
  have r_small: "\<bar>r\<bar> < 2 ^ 1024"
  proof -
    have "r \<le> 2 * X" using r2 yM MX by linarith
    also have "\<dots> < 2 ^ 1024" using X51 by simp
    finally show ?thesis using rpos by simp
  qed
  have div: "int_truediv M b = Inr r"
    using a ab r_small by (simp add: int_truediv_def Let_def overflows_def r_def y_def Mq_def B_def)
  have a53: "\<bar>a\<bar> < 2 ^ 53"
  proof -
    have "a * 1 \<le> a * M" using a M by (intro mult_left_mono) simp_all
    then have "a \<le> a * M" by (simp only: mult_1_right)
    then have "a < 2 ^ 51" using aM by linarith
    then show ?thesis using a by simp
  qed
  have conv: "round_double (of_int a) = A"
    using round_double_of_int [OF a53] by (simp add: A_def)
  have A_small: "\<not> overflows A"
    using AX X51 A1 by (simp add: overflows_def)
  define t where "t = A * r"
  have tnorm: "pow2 (- 1022) \<le> t"
  proof -
    have "pow2 (- 1022) \<le> pow2 (- 1001)" by (rule pow2_mono) simp
    also have "\<dots> \<le> y / 2" using ylo by (simp add: p1001)
    also have "\<dots> \<le> r" by (rule r_half)
    also have "\<dots> \<le> t" using A1 rpos by (simp add: t_def mult_le_cancel_right1)
    finally show ?thesis .
  qed
  have tpos: "0 < t" using A1 rpos by (simp add: t_def)
  define p where "p = round_double t"
  have plo: "t - t / 2 ^ 53 \<le> p" and phi: "p \<le> t + t / 2 ^ 53"
    using round_double_bounds [OF tnorm] by (simp_all add: p_def)
  have ppos: "0 < p" using plo tpos by simp
  have tB_lo: "X - X / 2 ^ 53 \<le> t * B" and tB_hi: "t * B \<le> X + X / 2 ^ 53"
  proof -
    have "(y - y / 2 ^ 53) * B \<le> r * B" using rlo B1 by (simp add: mult_right_mono)
    then have "Mq - Mq / 2 ^ 53 \<le> r * B" using yB by (simp add: left_diff_distrib)
    then have "A * (Mq - Mq / 2 ^ 53) \<le> A * (r * B)" using A1 by (simp add: mult_left_mono)
    then show "X - X / 2 ^ 53 \<le> t * B" by (simp add: XAM t_def right_diff_distrib mult.assoc)
    have "r * B \<le> (y + y / 2 ^ 53) * B" using rhi B1 by (simp add: mult_right_mono)
    then have "r * B \<le> Mq + Mq / 2 ^ 53" using yB by (simp add: distrib_right)
    then have "A * (r * B) \<le> A * (Mq + Mq / 2 ^ 53)" using A1 by (simp add: mult_left_mono)
    then show "t * B \<le> X + X / 2 ^ 53" by (simp add: XAM t_def distrib_left mult.assoc)
  qed
  define T where "T = t * B"
  define P where "P = p * B"
  have T_lo: "X - X / 2 ^ 53 \<le> T" and T_hi: "T \<le> X + X / 2 ^ 53"
    using tB_lo tB_hi by (simp_all only: T_def)
  have eq1: "(t - t / 2 ^ 53) * B = T - T / 2 ^ 53" by (simp add: T_def field_simps)
  have eq2: "(t + t / 2 ^ 53) * B = T + T / 2 ^ 53" by (simp add: T_def field_simps)
  have P_lo: "T - T / 2 ^ 53 \<le> P"
    using plo B1 unfolding eq1 [symmetric] P_def by (simp add: mult_right_mono)
  have P_hi: "P \<le> T + T / 2 ^ 53"
    using phi B1 unfolding eq2 [symmetric] P_def by (simp add: mult_right_mono)
  have X0: "0 \<le> X" using A1 AX by linarith
  have pB_lo: "X - 1 < p * B" and pB_hi: "p * B < X + 1"
    using T_lo T_hi P_lo P_hi X0 X51 unfolding P_def [symmetric] by simp_all
  have p_small: "\<not> overflows p"
  proof -
    have "p * 1 \<le> p * B" using ppos B1 by (intro mult_left_mono) simp_all
    then have "p \<le> p * B" by (simp only: mult_1_right)
    then have "p < X + 1" using pB_hi by linarith
    then show ?thesis using ppos X51 by (simp add: overflows_def)
  qed
  define s where "s = \<lfloor>p\<rfloor>"
  have mul: "int_mul_float a r = Inr (Finite p)"
    using A_small p_small by (simp add: int_mul_float_def Let_def conv p_def t_def)
  have res: "scale_side a M b = Inr s"
    using ppos by (simp add: scale_side_def div mul float_to_int_def s_def)
  have s0: "0 \<le> s" using ppos by (simp add: s_def)
  have sp: "of_int s \<le> p" and ps: "p < of_int s + 1" by (simp_all add: s_def) linarith
  have "of_int s * B \<le> p * B" using sp B1 by (simp add: mult_right_mono)
  then have "of_int s * B < X + 1" using pB_hi by linarith
  then have "(of_int (s * b) :: rat) < of_int (a * M + 1)" by (simp add: B_def X_def)
  then have up: "s * b < a * M + 1" by (simp only: of_int_less_iff)
  have "p * B < (of_int s + 1) * B" using ps B1 by (simp add: mult_strict_right_mono)
  then have "X - 1 < (of_int s + 1) * B" using pB_lo by linarith
  then have "(of_int (a * M - 1) :: rat) < of_int ((s + 1) * b)" by (simp add: B_def X_def)
  then have dn: "a * M - 1 < (s + 1) * b" by (simp only: of_int_less_iff)
  show ?thesis using res s0 up dn by simp
qed

lemma scale_side_div:
  fixes b s n :: int
  assumes "0 < b" "s * b \<le> n" "n \<le> (s + 1) * b"
  shows "s = n div b \<or> (s = n div b - 1 \<and> b dvd n)"
proof -
  define q where "q = n div b"
  define r where "r = n mod b"
  have n: "n = q * b + r" by (simp add: q_def r_def)
  have r: "0 \<le> r" "r < b" using assms(1) by (simp_all add: r_def)
  have "s * b < (q + 1) * b" using assms(2) n r by (simp add: distrib_right)
  then have le: "s < q + 1" using assms(1) by (simp add: mult_less_cancel_right)
  have "q * b \<le> (s + 1) * b" using assms(3) n r by linarith
  then have ge: "q \<le> s + 1" using assms(1) by (simp add: mult_le_cancel_right)
  show ?thesis
  proof (cases "q = s + 1")
    case True
    with n have "n = (s + 1) * b + r" by simp
    with assms(3) r have "n = (s + 1) * b" by linarith
    then have "b dvd n" by simp
    then show ?thesis using True by (simp add: q_def [symmetric])
  next
    case False
    then show ?thesis using le ge by (simp add: q_def [symmetric])
  qed
qed

lemma short_side:
  assumes a: "1 \<le> a" and ab: "a \<le> b" and b: "b < 2 ^ 31" and M: "1 \<le> M" "M \<le> 2 ^ 20"
  shows "\<exists>s. scale_side a M b = Inr s \<and> 0 \<le> s \<and> s \<le> M \<and>
           s * b \<le> a * M \<and> a * M \<le> (s + 1) * b \<and>
           (s = a * M div b \<or> (s = a * M div b - 1 \<and> b dvd a * M))"
proof -
  have "a * M \<le> (2 ^ 31 - 1) * 2 ^ 20"
    using a ab b M by (intro mult_mono) simp_all
  then have aM: "a * M < 2 ^ 51" by simp
  have b': "b \<le> 2 ^ 1000" using b by simp
  obtain s where s: "scale_side a M b = Inr s" "0 \<le> s" "s * b \<le> a * M" "a * M \<le> (s + 1) * b"
    using scale_side_bounds [OF a ab M(1) aM b'] by blast
  have bpos: "0 < b" using a ab by linarith
  have "a * M \<le> b * M" using ab M(1) by (intro mult_right_mono) simp_all
  with s(3) have "s * b \<le> M * b" by (simp add: mult.commute)
  then have sM: "s \<le> M" using bpos by (simp add: mult_le_cancel_right)
  show ?thesis
    using s sM scale_side_div [OF bpos s(3) s(4)] by blast
qed

section \<open>The resizer\<close>

lemma new_size_landscape:
  assumes "1 \<le> h" "h < w" "w < 2 ^ 31" "1 \<le> M" "M \<le> 2 ^ 20"
  shows "\<exists>s. new_size w h M = Inr (M, s) \<and> 0 \<le> s \<and> s \<le> M \<and>
           s * w \<le> h * M \<and> h * M \<le> (s + 1) * w \<and>
           (s = h * M div w \<or> (s = h * M div w - 1 \<and> w dvd h * M))"
proof -
  have hw: "h \<le> w" using assms(2) by simp
  obtain s where s: "scale_side h M w = Inr s" and rest: "0 \<le> s \<and> s \<le> M \<and>
           s * w \<le> h * M \<and> h * M \<le> (s + 1) * w \<and>
           (s = h * M div w \<or> (s = h * M div w - 1 \<and> w dvd h * M))"
    using short_side [OF assms(1) hw assms(3,4,5)] by blast
  have "new_size w h M = Inr (M, s)" using assms(2) s by (simp add: new_size_def)
  with rest show ?thesis by blast
qed

lemma new_size_portrait:
  assumes "1 \<le> w" "w \<le> h" "h < 2 ^ 31" "1 \<le> M" "M \<le> 2 ^ 20"
  shows "\<exists>s. new_size w h M = Inr (s, M) \<and> 0 \<le> s \<and> s \<le> M \<and>
           s * h \<le> w * M \<and> w * M \<le> (s + 1) * h \<and>
           (s = w * M div h \<or> (s = w * M div h - 1 \<and> h dvd w * M))"
proof -
  obtain s where s: "scale_side w M h = Inr s" and rest: "0 \<le> s \<and> s \<le> M \<and>
           s * h \<le> w * M \<and> w * M \<le> (s + 1) * h \<and>
           (s = w * M div h \<or> (s = w * M div h - 1 \<and> h dvd w * M))"
    using short_side [OF assms] by blast
  have "new_size w h M = Inr (s, M)" using assms(2) s by (simp add: new_size_def)
  with rest show ?thesis by blast
qed

lemma resize_image_large:
  "M < width img \<or> M < height img \<Longrightarrow> new_size (width img) (height img) M = Inr sz \<Longrightarrow>
     resize_image resample img M = resample img sz"
  by (auto simp: resize_image_def)

text \<open>
  C4. A raster whose width and height are both at most the bound is returned as it
  is, and resizing the returned raster again gives the same raster.
\<close>

theorem resize_image_noop:
  assumes "width img \<le> M" and "height img \<le> M"
  shows "resize_image resample img M = Inr img \<and>
         (case resize_image resample img M of
            Inl e \<Rightarrow> False
          | Inr once \<Rightarrow> resize_image resample once M = Inr img)"
  using assms by (simp add: resize_image_def)

theorem resize_image_noop_witness:
  "width \<lparr>width = 500, height = 500, pixels = []\<rparr> \<le> (2000::int) \<and>
   height \<lparr>width = 500, height = 500, pixels = []\<rparr> \<le> (2000::int) \<and>
   resize_image (\<lambda>img sz. Inl (External ''not called''))
     \<lparr>width = 500, height = 500, pixels = []\<rparr> 2000
     = Inr \<lparr>width = 500, height = 500, pixels = []\<rparr>"
  using resize_image_noop [of "\<lparr>width = 500, height = 500, pixels = []\<rparr>" 2000
      "\<lambda>img sz. Inl (External ''not called'')"]
  by simp

lemma new_size_3000_1000: "new_size 3000 1000 2000 = Inr (2000, 666)"
proof -
  have "\<exists>s. new_size 3000 1000 2000 = Inr (2000, s) \<and> 0 \<le> s \<and> s \<le> 2000 \<and>
           s * 3000 \<le> 1000 * 2000 \<and> 1000 * 2000 \<le> (s + 1) * 3000 \<and>
           (s = 1000 * 2000 div 3000 \<or> (s = 1000 * 2000 div 3000 - 1 \<and> 3000 dvd 1000 * (2000::int)))"
    by (rule new_size_landscape) simp_all
  then show ?thesis by simp
qed

text \<open>
  C1. For a raster (sides from 1 to below \<open>2^31\<close>, bound from 1 to \<open>2^20\<close>) with a
  side above the bound \<open>M\<close>, the size requested from the resampling filter has its
  longer side equal to \<open>M\<close>, so the larger of the two new sides is \<open>M\<close>. The shorter
  side is the proportional size \<open>short * M / long\<close> rounded down, not to the nearest
  integer; when that quotient is a whole number the double product can fall just below
  it, and the result is then one less.
\<close>

theorem resize_image_target_size:
  assumes "1 \<le> width img" and "1 \<le> height img"
    and "width img < 2 ^ 31" and "height img < 2 ^ 31"
    and "1 \<le> M" and "M \<le> 2 ^ 20"
    and "M < width img \<or> M < height img"
  shows "\<exists>nw nh. resize_image resample img M = resample img (nw, nh) \<and> max nw nh = M \<and>
           (if height img < width img
            then nw = M \<and>
                 (nh = height img * M div width img \<or>
                  (nh = height img * M div width img - 1 \<and> width img dvd height img * M))
            else nh = M \<and>
                 (nw = width img * M div height img \<or>
                  (nw = width img * M div height img - 1 \<and> height img dvd width img * M)))"
proof (cases "height img < width img")
  case True
  obtain s where s: "new_size (width img) (height img) M = Inr (M, s)" "0 \<le> s" "s \<le> M"
      "s = height img * M div width img \<or>
       (s = height img * M div width img - 1 \<and> width img dvd height img * M)"
    using new_size_landscape [OF assms(2) True assms(3,5,6)] by blast
  have "resize_image resample img M = resample img (M, s)"
    using assms(7) s(1) by (rule resize_image_large)
  moreover have "max M s = M" using s(3) by simp
  ultimately show ?thesis using True s(4) by auto
next
  case False
  then have wh: "width img \<le> height img" by simp
  obtain s where s: "new_size (width img) (height img) M = Inr (s, M)" "0 \<le> s" "s \<le> M"
      "s = width img * M div height img \<or>
       (s = width img * M div height img - 1 \<and> height img dvd width img * M)"
    using new_size_portrait [OF assms(1) wh assms(4,5,6)] by blast
  have "resize_image resample img M = resample img (s, M)"
    using assms(7) s(1) by (rule resize_image_large)
  moreover have "max s M = M" using s(3) by simp
  ultimately show ?thesis using False s(4) by auto
qed

theorem resize_image_target_size_witness:
  "\<exists>nw nh.
     resize_image (\<lambda>img sz. Inr \<lparr>width = fst sz, height = snd sz, pixels = []\<rparr>)
       \<lparr>width = 3000, height = 1000, pixels = []\<rparr> 2000
       = Inr \<lparr>width = nw, height = nh, pixels = []\<rparr> \<and>
     max nw nh = 2000 \<and> nw = 2000 \<and> nh = 666"
  using resize_image_target_size [of "\<lparr>width = 3000, height = 1000, pixels = []\<rparr>" 2000
      "\<lambda>img sz. Inr \<lparr>width = fst sz, height = snd sz, pixels = []\<rparr>"]
  by simp

theorem resize_image_nearest_counterexample:
  "new_size 3000 1000 2000 = Inr (2000, 666) \<and> round (1000 * 2000 / 3000 :: rat) = 667"
proof -
  have "round (1000 * 2000 / 3000 :: rat) = 667"
    by (simp add: round_def floor_eq_iff)
  then show ?thesis using new_size_3000_1000 by simp
qed

lemma ratio_gap:
  fixes nw nh w h m :: int
  assumes "1 \<le> nh" "1 \<le> h" "\<bar>nw * h - w * nh\<bar> \<le> m"
  shows "\<bar>of_int nw / of_int nh - of_int w / of_int h\<bar>
           \<le> (of_int m / (of_int h * of_int nh) :: rat)"
proof -
  have pos: "(0::rat) < of_int h * of_int nh" using assms(1,2) by simp
  have "(of_int nw / of_int nh - of_int w / of_int h :: rat)
          = of_int (nw * h - w * nh) / (of_int h * of_int nh)"
    using assms(1,2) by (simp add: field_simps)
  then have "\<bar>of_int nw / of_int nh - of_int w / of_int h :: rat\<bar>
          = of_int \<bar>nw * h - w * nh\<bar> / (of_int h * of_int nh)"
    using pos by (simp add: abs_divide del: of_int_diff of_int_mult)
  also have "\<dots> \<le> of_int m / (of_int h * of_int nh)"
  proof -
    have "(of_int \<bar>nw * h - w * nh\<bar> :: rat) \<le> of_int m"
      using assms(3) by (simp only: of_int_le_iff)
    then show ?thesis using pos by (simp only: divide_right_mono less_imp_le)
  qed
  finally show ?thesis .
qed

text \<open>
  For a raster (sides from 1 to below \<open>2^31\<close>, bound from 1 to \<open>2^20\<close>) with a side
  above the bound \<open>M\<close>, the requested size has \<open>M\<close> as its larger side and
  \<open>|newWidth * height - width * newHeight|\<close> is at most the longer original side: the
  short side is within one pixel of the proportional size. When the new height is at
  least 1 the two ratios differ by at most \<open>max width height / (height * newHeight)\<close>.
\<close>

lemma aspect_ratio_within_one_pixel:
  assumes "1 \<le> width img" and "1 \<le> height img"
    and "width img < 2 ^ 31" and "height img < 2 ^ 31"
    and "1 \<le> M" and "M \<le> 2 ^ 20"
    and "M < width img \<or> M < height img"
  shows "\<exists>nw nh. resize_image resample img M = resample img (nw, nh) \<and>
           max nw nh = M \<and>
           \<bar>nw * height img - width img * nh\<bar> \<le> max (width img) (height img) \<and>
           (1 \<le> nh \<longrightarrow>
              \<bar>of_int nw / of_int nh - of_int (width img) / of_int (height img)\<bar>
                \<le> (of_int (max (width img) (height img))
                     / (of_int (height img) * of_int nh) :: rat))"
proof -
  have "\<exists>nw nh. new_size (width img) (height img) M = Inr (nw, nh) \<and> max nw nh = M \<and>
          \<bar>nw * height img - width img * nh\<bar> \<le> max (width img) (height img)"
  proof (cases "height img < width img")
    case True
    obtain s where s: "new_size (width img) (height img) M = Inr (M, s)" "s \<le> M"
        "s * width img \<le> height img * M" "height img * M \<le> (s + 1) * width img"
      using new_size_landscape [OF assms(2) True assms(3,5,6)] by blast
    have "\<bar>M * height img - width img * s\<bar> \<le> width img"
      using s(3,4) by (simp add: algebra_simps abs_le_iff)
    moreover have "max M s = M" using s(2) by simp
    ultimately show ?thesis using s(1) True by auto
  next
    case False
    then have wh: "width img \<le> height img" by simp
    obtain s where s: "new_size (width img) (height img) M = Inr (s, M)" "s \<le> M"
        "s * height img \<le> width img * M" "width img * M \<le> (s + 1) * height img"
      using new_size_portrait [OF assms(1) wh assms(4,5,6)] by blast
    have "\<bar>s * height img - width img * M\<bar> \<le> height img"
      using s(3,4) by (simp add: algebra_simps abs_le_iff)
    moreover have "max s M = M" using s(2) by simp
    ultimately show ?thesis using s(1) wh by auto
  qed
  then obtain nw nh where sz: "new_size (width img) (height img) M = Inr (nw, nh)"
    and mx: "max nw nh = M"
    and gap: "\<bar>nw * height img - width img * nh\<bar> \<le> max (width img) (height img)"
    by blast
  have "resize_image resample img M = resample img (nw, nh)"
    using assms(7) sz by (rule resize_image_large)
  moreover have "1 \<le> nh \<longrightarrow>
      \<bar>of_int nw / of_int nh - of_int (width img) / of_int (height img)\<bar>
        \<le> (of_int (max (width img) (height img)) / (of_int (height img) * of_int nh) :: rat)"
    using ratio_gap [OF _ assms(2) gap] by blast
  ultimately show ?thesis using gap mx by blast
qed

lemma new_size_6001_2: "new_size 6001 2 2000 = Inr (2000, 0)"
proof -
  have "\<exists>s. new_size 6001 2 2000 = Inr (2000, s) \<and> 0 \<le> s \<and> s \<le> 2000 \<and>
           s * 6001 \<le> 2 * 2000 \<and> 2 * 2000 \<le> (s + 1) * 6001 \<and>
           (s = 2 * 2000 div 6001 \<or> (s = 2 * 2000 div 6001 - 1 \<and> 6001 dvd 2 * (2000::int)))"
    by (rule new_size_landscape) simp_all
  then show ?thesis by auto
qed

text \<open>
  C7. The aspect ratio is not kept for a 6001 by 2 raster and the bound 2000: the new
  height is \<^verbatim>\<open>int(2 * (2000 / 6001))\<close>, which is 0, so \<open>resize_image\<close> asks the library
  for the size 2000 by 0, and a raster of height 0 has no aspect ratio.
\<close>

theorem resize_image_loses_aspect_ratio:
  "new_size 6001 2 2000 = Inr (2000, 0) \<and>
   resize_image resample \<lparr>width = 6001, height = 2, pixels = px\<rparr> 2000
     = resample \<lparr>width = 6001, height = 2, pixels = px\<rparr> (2000, 0)"
  using new_size_6001_2 by (simp add: resize_image_def)

text \<open>
  For a raster with both sides at least 1 (and below \<open>2^31\<close>, bound from 1 to
  \<open>2^20\<close>): if both sides are at most the bound the raster is returned as it is;
  otherwise both requested sides are at least 1 provided the longer side is smaller
  than the shorter side times the bound.
\<close>

lemma sides_positive_unless_thin:
  assumes "1 \<le> width img" and "1 \<le> height img"
    and "width img < 2 ^ 31" and "height img < 2 ^ 31"
    and "1 \<le> M" and "M \<le> 2 ^ 20"
    and "(width img \<le> M \<and> height img \<le> M) \<or>
         max (width img) (height img) < min (width img) (height img) * M"
  shows "(width img \<le> M \<and> height img \<le> M \<and> resize_image resample img M = Inr img) \<or>
         (\<exists>nw nh. resize_image resample img M = resample img (nw, nh) \<and> 1 \<le> nw \<and> 1 \<le> nh)"
proof (cases "width img \<le> M \<and> height img \<le> M")
  case True
  then show ?thesis by (simp add: resize_image_def)
next
  case False
  then have big: "M < width img \<or> M < height img" by auto
  from False assms(7)
  have thin: "max (width img) (height img) < min (width img) (height img) * M" by blast
  show ?thesis
  proof (cases "height img < width img")
    case True
    obtain s where s: "new_size (width img) (height img) M = Inr (M, s)"
        "height img * M \<le> (s + 1) * width img"
      using new_size_landscape [OF assms(2) True assms(3,5,6)] by blast
    have "width img < height img * M" using thin True by (simp add: max_def min_def)
    then have "1 * width img < (s + 1) * width img" using s(2) by simp
    then have "1 < s + 1" using assms(1) by (auto simp: mult_less_cancel_right)
    then have "1 \<le> s" by simp
    moreover have "resize_image resample img M = resample img (M, s)"
      using big s(1) by (rule resize_image_large)
    ultimately show ?thesis using assms(5) by blast
  next
    case False
    then have wh: "width img \<le> height img" by simp
    obtain s where s: "new_size (width img) (height img) M = Inr (s, M)"
        "width img * M \<le> (s + 1) * height img"
      using new_size_portrait [OF assms(1) wh assms(4,5,6)] by blast
    have "height img < width img * M" using thin wh by (simp add: max_def min_def)
    then have "1 * height img < (s + 1) * height img" using s(2) by simp
    then have "1 < s + 1" using assms(2) by (auto simp: mult_less_cancel_right)
    then have "1 \<le> s" by simp
    moreover have "resize_image resample img M = resample img (s, M)"
      using big s(1) by (rule resize_image_large)
    ultimately show ?thesis using assms(5) by blast
  qed
qed

lemma new_size_5000_1: "new_size 5000 1 2000 = Inr (2000, 0)"
proof -
  have "\<exists>s. new_size 5000 1 2000 = Inr (2000, s) \<and> 0 \<le> s \<and> s \<le> 2000 \<and>
           s * 5000 \<le> 1 * 2000 \<and> 1 * 2000 \<le> (s + 1) * 5000 \<and>
           (s = 1 * 2000 div 5000 \<or> (s = 1 * 2000 div 5000 - 1 \<and> 5000 dvd 1 * (2000::int)))"
    by (rule new_size_landscape) simp_all
  then show ?thesis by auto
qed

text \<open>
  C10. The truncated short side does collapse to zero: for a 5000 by 1 raster and the
  bound 2000 the new height is \<^verbatim>\<open>int(1 * (2000 / 5000))\<close>, that is \<^verbatim>\<open>int(0.4)\<close>,
  which is 0, so \<open>resize_image\<close> asks the library for the size 2000 by 0 although
  both sides of the input are at least 1.
\<close>

theorem resize_image_requests_empty_size:
  "new_size 5000 1 2000 = Inr (2000, 0) \<and>
   resize_image resample \<lparr>width = 5000, height = 1, pixels = px\<rparr> 2000
     = resample \<lparr>width = 5000, height = 1, pixels = px\<rparr> (2000, 0)"
  using new_size_5000_1 by (simp add: resize_image_def)

subsection \<open>The double product can fall below a whole quotient\<close>

text \<open>
  For a 98000 by 49 raster and the bound 2000 the proportional height is exactly 1,
  but \<^verbatim>\<open>2000 / 98000\<close> is rounded down to a double, 49 times that double rounds to
  the largest double below 1, and \<^verbatim>\<open>int\<close> truncates it to 0.
\<close>

lemma round_double_at:
  assumes "pow2 e \<le> x" and "x < pow2 (e + 1)" and "- 1022 \<le> e"
  shows "round_double x = of_int (round_half_even (x / pow2 (e - 52))) * pow2 (e - 52)"
proof -
  have xpos: "0 < x" using assms(1) pow2_pos [of e] by linarith
  have e: "ilog2 x = e" using assms(1,2) by (rule ilog2_unique)
  have mq: "max (e - 52) (- 1074) = e - 52" using assms(3) by linarith
  show ?thesis using xpos by (simp add: round_double_def Let_def e mq)
qed

lemma round_half_even_down:
  assumes "of_int f \<le> r" and "r < of_int f + 1 / 2"
  shows "round_half_even r = f"
proof -
  have "\<lfloor>r\<rfloor> = f" using assms by (intro floor_unique) simp_all
  then show ?thesis using assms by (simp add: round_half_even_def Let_def)
qed

lemma slip_quotient: "round_double (2000 / 98000) = 5882252574524729 / 2 ^ 58"
proof -
  have p: "pow2 (- 58) = 1 / 2 ^ 58" "pow2 (- 6) = 1 / 2 ^ 6" "pow2 (- 5) = 1 / 2 ^ 5"
    by (simp_all add: pow2_def power_int_minus_divide)
  have "round_double (2000 / 98000)
          = of_int (round_half_even (2000 / 98000 / pow2 (- 6 - 52))) * pow2 (- 6 - 52)"
    by (rule round_double_at) (simp_all add: p)
  moreover have "round_half_even (2000 / 98000 / pow2 (- 58)) = 5882252574524729"
    by (rule round_half_even_down) (simp_all add: p)
  ultimately show ?thesis by (simp add: p)
qed

lemma slip_product:
  "round_double (49 * (5882252574524729 / 2 ^ 58)) = 9007199254740991 / 2 ^ 53"
proof -
  have p: "pow2 (- 53) = 1 / 2 ^ 53" "pow2 (- 1) = 1 / 2" "pow2 0 = 1"
    by (simp_all add: pow2_def power_int_minus_divide)
  have "round_double (49 * (5882252574524729 / 2 ^ 58))
          = of_int (round_half_even (49 * (5882252574524729 / 2 ^ 58) / pow2 (- 1 - 52)))
            * pow2 (- 1 - 52)"
    by (rule round_double_at) (simp_all add: p)
  moreover have "round_half_even (49 * (5882252574524729 / 2 ^ 58) / pow2 (- 53))
          = 9007199254740991"
    by (rule round_half_even_down) (simp_all add: p)
  ultimately show ?thesis by (simp add: p)
qed

lemma new_size_slip: "new_size 98000 49 2000 = Inr (2000, 0)"
proof -
  have q: "int_truediv 2000 98000 = Inr (5882252574524729 / 2 ^ 58)"
    using slip_quotient by (simp add: int_truediv_def Let_def overflows_def)
  have c: "round_double (of_int 49) = of_int 49"
    by (rule round_double_of_int) simp
  have m: "int_mul_float 49 (5882252574524729 / 2 ^ 58) = Inr (Finite (9007199254740991 / 2 ^ 53))"
    using c slip_product by (simp add: int_mul_float_def Let_def overflows_def)
  have f: "float_to_int (Finite (9007199254740991 / 2 ^ 53)) = Inr 0"
    by (simp add: float_to_int_def floor_eq_iff)
  have "scale_side 49 2000 98000 = Inr 0"
    by (simp only: scale_side_def q m f sum.case)
  then show ?thesis
    by (simp add: new_size_def)
qed

section \<open>The pipeline\<close>

lemma emit_fields [simp]:
  "page (emit el s) = page s @ [el]"
  "stdout (emit el s) = stdout s"
  "calls (emit el s) = calls s"
  by (simp_all add: emit_def)

lemma print_line_fields [simp]:
  "page (print_line l s) = page s"
  "stdout (print_line l s) = stdout s @ [l]"
  "calls (print_line l s) = calls s"
  by (simp_all add: print_line_def)

lemma enter_fields [simp]:
  "page (enter st s) = page s"
  "stdout (enter st s) = stdout s"
  "calls (enter st s) = calls s @ [st]"
  by (simp_all add: enter_def)

lemma process_image_decode_fails:
  "decode env b = Inl e \<Longrightarrow>
     process_image env b s = processing_error e (enter Decode s)"
  by (simp add: process_image_def)

lemma process_image_resize_fails:
  "decode env b = Inr img \<Longrightarrow> resize_image (lanczos env) img MAX_IMAGE_SIZE = Inl e \<Longrightarrow>
     process_image env b s = processing_error e (enter Resize (enter Decode s))"
  by (simp add: process_image_def)

lemma process_image_remove_fails:
  "decode env b = Inr img \<Longrightarrow> resize_image (lanczos env) img MAX_IMAGE_SIZE = Inr resized \<Longrightarrow>
     remove env resized = Inl e \<Longrightarrow>
     process_image env b s = processing_error e (enter Remove (enter Resize (enter Decode s)))"
  by (simp add: process_image_def)

lemma process_image_succeeds:
  "decode env b = Inr img \<Longrightarrow> resize_image (lanczos env) img MAX_IMAGE_SIZE = Inr resized \<Longrightarrow>
     remove env resized = Inr result \<Longrightarrow>
     process_image env b s
       = ((Some img, Some result), enter Remove (enter Resize (enter Decode s)))"
  by (simp add: process_image_def)

lemma fix_image_failed:
  assumes "process_image env (file_data f) 
            (emit (Progress 30) (emit (Status Processing)
               (emit (Progress 10) (emit (Status Reading) (emit (Progress 0) s)))))
           = processing_error e s'"
  shows "fix_image env f start finish s = emit (Error (''Image processing error: '' @ str e)) s'"
  using assms by (simp add: fix_image_def Let_def processing_error_def)

lemma fix_image_done:
  assumes "process_image env (file_data f) 
            (emit (Progress 30) (emit (Status Processing)
               (emit (Progress 10) (emit (Status Reading) (emit (Progress 0) s)))))
           = ((Some img, Some result), s')"
  shows "fix_image env f start finish s = show_result env img result start finish s'"
  using assms by (simp add: fix_image_def Let_def)


lemma show_result_page:
  "page (show_result env original removed start finish s) =
     page s @ [Progress 90, Status Displaying, Picture original ''Original Image'',
               Picture removed ''Background Removed''] @
     (case convert_image env removed of
        Inl e \<Rightarrow> [Error ''An unexpected error occurred.'', SidebarError ''Processing failed.'']
      | Inr content \<Rightarrow>
          [DownloadButton ''Download Output (PNG)'' content ''removed_background.png'' ''image/png'',
           Progress 100, Status (Completed (round_double (finish - start)))])"
  by (simp add: show_result_def Let_def unexpected_error_def split: sum.splits)

lemma processing_error_fields [simp]:
  "fst (processing_error e s) = (None, None)"
  "page (snd (processing_error e s)) = page s @ [Error (''Image processing error: '' @ str e)]"
  "stdout (snd (processing_error e s)) = stdout s"
  "calls (snd (processing_error e s)) = calls s"
  by (simp_all add: processing_error_def)

lemma process_image_result_indep:
  "fst (process_image env b s) = fst (process_image env b s')"
  by (simp add: process_image_def Let_def processing_error_def split: sum.splits)

lemma process_image_stdout: "stdout (snd (process_image env b s)) = stdout s"
  by (simp add: process_image_def Let_def split: sum.splits)

lemma process_image_progress:
  "progress_values (page (snd (process_image env b s))) = progress_values (page s)"
  by (simp add: process_image_def Let_def progress_values_def split: sum.splits)

text \<open>
  C3. An upload longer than 10 MiB (\<open>10 * 1024 * 1024\<close> bytes) gets the
  file-too-large error on the page and nothing else: the session is otherwise
  unchanged, so no decode, resize, removal or encode stage is entered.
\<close>

theorem oversized_upload_rejected:
  assumes "10 * 1024 * 1024 < length (file_data f)"
  shows "app env (Some f) start finish s
           = emit (Error ''File too large. Please upload an image smaller than 10MB.'') s \<and>
         calls (app env (Some f) start finish s) = calls s"
  using assms by (simp add: app_def file_size_def MAX_FILE_SIZE_def)

theorem oversized_upload_rejected_witness:
  "10 * 1024 * 1024 < length (file_data \<lparr>file_name = ''big.png'', file_data = replicate 10485761 0\<rparr>) \<and>
   calls (app (example_env (\<lambda>b. Inl (External ''cannot identify image file'')) Inr)
            (Some \<lparr>file_name = ''big.png'', file_data = replicate 10485761 0\<rparr>) 0 1 blank) = [] \<and>
   page (app (example_env (\<lambda>b. Inl (External ''cannot identify image file'')) Inr)
            (Some \<lparr>file_name = ''big.png'', file_data = replicate 10485761 0\<rparr>) 0 1 blank)
     = [Error ''File too large. Please upload an image smaller than 10MB.'']"
  using oversized_upload_rejected
    [of "\<lparr>file_name = ''big.png'', file_data = replicate 10485761 0\<rparr>"
        "example_env (\<lambda>b. Inl (External ''cannot identify image file'')) Inr" 0 1 blank]
  by (simp add: blank_def)

lemma pipeline_enters_decode:
  "file_size f \<le> MAX_FILE_SIZE \<Longrightarrow>
     \<exists>rest. calls (app env (Some f) start finish s) = calls s @ Decode # rest"
  by (simp add: app_def fix_image_def process_image_def Let_def processing_error_def
      show_result_def unexpected_error_def split: sum.splits)

text \<open>
  C5. When the decoder rejects the uploaded bytes, the run ends normally with the
  error reported on the page; the resize, removal and encode stages are not entered,
  nothing is printed, and neither a picture nor a download button is added to the page.
\<close>

theorem decode_failure_reported:
  assumes "file_size f \<le> MAX_FILE_SIZE" and "decode env (file_data f) = Inl e"
  shows "page (app env (Some f) start finish s)
           = page s @ [Progress 0, Status Reading, Progress 10, Status Processing, Progress 30,
                       Error (''Image processing error: '' @ str e)] \<and>
         calls (app env (Some f) start finish s) = calls s @ [Decode] \<and>
         stdout (app env (Some f) start finish s) = stdout s \<and>
         filter is_output (page (app env (Some f) start finish s)) = filter is_output (page s)"
proof -
  have "fix_image env f start finish s
          = emit (Error (''Image processing error: '' @ str e))
              (enter Decode (emit (Progress 30) (emit (Status Processing)
                 (emit (Progress 10) (emit (Status Reading) (emit (Progress 0) s))))))"
    by (rule fix_image_failed) (simp add: process_image_decode_fails [OF assms(2)])
  then show ?thesis using assms(1) by (simp add: app_def)
qed

theorem decode_failure_reported_witness:
  "page (app (example_env (\<lambda>b. Inl (External ''cannot identify image file'')) Inr)
            (Some \<lparr>file_name = ''notes.png'', file_data = [104, 105]\<rparr>) 0 1 blank)
     = [Progress 0, Status Reading, Progress 10, Status Processing, Progress 30,
        Error ''Image processing error: cannot identify image file''] \<and>
   calls (app (example_env (\<lambda>b. Inl (External ''cannot identify image file'')) Inr)
            (Some \<lparr>file_name = ''notes.png'', file_data = [104, 105]\<rparr>) 0 1 blank) = [Decode]"
  using decode_failure_reported
    [of "\<lparr>file_name = ''notes.png'', file_data = [104, 105]\<rparr>"
        "example_env (\<lambda>b. Inl (External ''cannot identify image file'')) Inr"
        "External ''cannot identify image file''" 0 1 blank]
  by (simp add: blank_def example_env_def file_size_def MAX_FILE_SIZE_def)

lemma encoder_failure_session:
  assumes "decode env (file_data f) = Inr img"
    and "resize_image (lanczos env) img MAX_IMAGE_SIZE = Inr resized"
    and "remove env resized = Inr result"
    and "convert_image env result = Inl e"
  shows "page (fix_image env f start finish s)
           = page s @ [Progress 0, Status Reading, Progress 10, Status Processing, Progress 30,
                       Progress 90, Status Displaying,
                       Picture img ''Original Image'', Picture result ''Background Removed'',
                       Error ''An unexpected error occurred.'',
                       SidebarError ''Processing failed.'']"
    and "stdout (fix_image env f start finish s) = stdout s @ [Traceback e]"
proof -
  let ?s3 = "emit (Progress 30) (emit (Status Processing)
                 (emit (Progress 10) (emit (Status Reading) (emit (Progress 0) s))))"
  have run: "fix_image env f start finish s
          = show_result env img result start finish (enter Remove (enter Resize (enter Decode ?s3)))"
    by (rule fix_image_done) (rule process_image_succeeds [OF assms(1,2,3)])
  show "page (fix_image env f start finish s)
           = page s @ [Progress 0, Status Reading, Progress 10, Status Processing, Progress 30,
                       Progress 90, Status Displaying,
                       Picture img ''Original Image'', Picture result ''Background Removed'',
                       Error ''An unexpected error occurred.'',
                       SidebarError ''Processing failed.'']"
    by (simp add: run show_result_page assms(4))
  show "stdout (fix_image env f start finish s) = stdout s @ [Traceback e]"
    by (simp add: run show_result_def Let_def assms(4) unexpected_error_def)
qed

text \<open>
  C2. When the decoder, the resizer or the removal model raises inside
  \<open>process_image\<close>, the page shows \<^verbatim>\<open>Image processing error: \<close> followed by the
  text of the exception, and nothing is printed to the operator's log. The generic
  messages, with the traceback printed to the log, come from the handler of
  \<open>fix_image\<close>, which is reached when the PNG encoding of the result raises.
\<close>

theorem processing_failure_report:
  assumes "file_size f \<le> MAX_FILE_SIZE"
  shows "(decode env (file_data f) = Inl e \<or>
          (\<exists>img. decode env (file_data f) = Inr img \<and>
             (resize_image (lanczos env) img MAX_IMAGE_SIZE = Inl e \<or>
              (\<exists>resized. resize_image (lanczos env) img MAX_IMAGE_SIZE = Inr resized \<and>
                 remove env resized = Inl e)))
          \<longrightarrow>
            page (app env (Some f) start finish s)
              = page s @ [Progress 0, Status Reading, Progress 10, Status Processing,
                          Progress 30, Error (''Image processing error: '' @ str e)] \<and>
            stdout (app env (Some f) start finish s) = stdout s) \<and>
         (decode env (file_data f) = Inr decoded \<and>
          resize_image (lanczos env) decoded MAX_IMAGE_SIZE = Inr shrunk \<and>
          remove env shrunk = Inr result \<and> convert_image env result = Inl e'
          \<longrightarrow>
            page (app env (Some f) start finish s)
              = page s @ [Progress 0, Status Reading, Progress 10, Status Processing,
                          Progress 30, Progress 90, Status Displaying,
                          Picture decoded ''Original Image'',
                          Picture result ''Background Removed'',
                          Error ''An unexpected error occurred.'',
                          SidebarError ''Processing failed.''] \<and>
            stdout (app env (Some f) start finish s) = stdout s @ [Traceback e'])"
proof -
  let ?s3 = "emit (Progress 30) (emit (Status Processing)
                 (emit (Progress 10) (emit (Status Reading) (emit (Progress 0) s))))"
  have app: "app env (Some f) start finish s = fix_image env f start finish s"
    using assms by (simp add: app_def)
  have inner: "decode env (file_data f) = Inl e \<or>
          (\<exists>img. decode env (file_data f) = Inr img \<and>
             (resize_image (lanczos env) img MAX_IMAGE_SIZE = Inl e \<or>
              (\<exists>resized. resize_image (lanczos env) img MAX_IMAGE_SIZE = Inr resized \<and>
                 remove env resized = Inl e)))
          \<longrightarrow>
            page (app env (Some f) start finish s)
              = page s @ [Progress 0, Status Reading, Progress 10, Status Processing,
                          Progress 30, Error (''Image processing error: '' @ str e)] \<and>
            stdout (app env (Some f) start finish s) = stdout s"
  proof
    assume fails: "decode env (file_data f) = Inl e \<or>
          (\<exists>img. decode env (file_data f) = Inr img \<and>
             (resize_image (lanczos env) img MAX_IMAGE_SIZE = Inl e \<or>
              (\<exists>resized. resize_image (lanczos env) img MAX_IMAGE_SIZE = Inr resized \<and>
                 remove env resized = Inl e)))"
    have "\<exists>s'. process_image env (file_data f) ?s3 = processing_error e s' \<and>
            page s' = page ?s3 \<and> stdout s' = stdout ?s3"
      using fails
      by (auto simp: process_image_decode_fails process_image_resize_fails
          process_image_remove_fails)
    then obtain s' where s': "process_image env (file_data f) ?s3 = processing_error e s'"
        "page s' = page ?s3" "stdout s' = stdout ?s3"
      by blast
    have "fix_image env f start finish s
            = emit (Error (''Image processing error: '' @ str e)) s'"
      using s'(1) by (rule fix_image_failed)
    then show "page (app env (Some f) start finish s)
              = page s @ [Progress 0, Status Reading, Progress 10, Status Processing,
                          Progress 30, Error (''Image processing error: '' @ str e)] \<and>
            stdout (app env (Some f) start finish s) = stdout s"
      using s'(2,3) by (simp add: app)
  qed
  have outer: "decode env (file_data f) = Inr decoded \<and>
          resize_image (lanczos env) decoded MAX_IMAGE_SIZE = Inr shrunk \<and>
          remove env shrunk = Inr result \<and> convert_image env result = Inl e'
          \<longrightarrow>
            page (app env (Some f) start finish s)
              = page s @ [Progress 0, Status Reading, Progress 10, Status Processing,
                          Progress 30, Progress 90, Status Displaying,
                          Picture decoded ''Original Image'',
                          Picture result ''Background Removed'',
                          Error ''An unexpected error occurred.'',
                          SidebarError ''Processing failed.''] \<and>
            stdout (app env (Some f) start finish s) = stdout s @ [Traceback e']"
    unfolding app
    using encoder_failure_session [of env f decoded shrunk result e' start finish s]
    by blast
  from inner outer show ?thesis by (rule conjI)
qed

theorem processing_failure_report_witness:
  "(page (app (example_env (\<lambda>b. Inr \<lparr>width = 2, height = 1, pixels = b\<rparr>)
               (\<lambda>img. Inl (External ''onnxruntime: failed to allocate memory'')))
            (Some \<lparr>file_name = ''cat.png'', file_data = [1, 2, 3, 255, 4, 5, 6, 255]\<rparr>) 0 1 blank)
     = [Progress 0, Status Reading, Progress 10, Status Processing, Progress 30,
        Error ''Image processing error: onnxruntime: failed to allocate memory''] \<and>
   stdout (app (example_env (\<lambda>b. Inr \<lparr>width = 2, height = 1, pixels = b\<rparr>)
               (\<lambda>img. Inl (External ''onnxruntime: failed to allocate memory'')))
            (Some \<lparr>file_name = ''cat.png'', file_data = [1, 2, 3, 255, 4, 5, 6, 255]\<rparr>) 0 1 blank)
     = []) \<and>
   (page (app ((example_env (\<lambda>b. Inr \<lparr>width = 2, height = 1, pixels = b\<rparr>) Inr)
                 \<lparr>save_png := \<lambda>img. Inl (External ''cannot write mode RGBA'')\<rparr>)
            (Some \<lparr>file_name = ''cat.png'', file_data = [1, 2, 3, 255, 4, 5, 6, 255]\<rparr>) 0 1 blank)
     = [Progress 0, Status Reading, Progress 10, Status Processing, Progress 30,
        Progress 90, Status Displaying,
        Picture \<lparr>width = 2, height = 1, pixels = [1, 2, 3, 255, 4, 5, 6, 255]\<rparr> ''Original Image'',
        Picture \<lparr>width = 2, height = 1, pixels = [1, 2, 3, 255, 4, 5, 6, 255]\<rparr>
          ''Background Removed'',
        Error ''An unexpected error occurred.'', SidebarError ''Processing failed.''] \<and>
   stdout (app ((example_env (\<lambda>b. Inr \<lparr>width = 2, height = 1, pixels = b\<rparr>) Inr)
                 \<lparr>save_png := \<lambda>img. Inl (External ''cannot write mode RGBA'')\<rparr>)
            (Some \<lparr>file_name = ''cat.png'', file_data = [1, 2, 3, 255, 4, 5, 6, 255]\<rparr>) 0 1 blank)
     = [Traceback (External ''cannot write mode RGBA'')])"
proof -
  have first: "page (app (example_env (\<lambda>b. Inr \<lparr>width = 2, height = 1, pixels = b\<rparr>)
               (\<lambda>img. Inl (External ''onnxruntime: failed to allocate memory'')))
            (Some \<lparr>file_name = ''cat.png'', file_data = [1, 2, 3, 255, 4, 5, 6, 255]\<rparr>) 0 1 blank)
     = [Progress 0, Status Reading, Progress 10, Status Processing, Progress 30,
        Error ''Image processing error: onnxruntime: failed to allocate memory''] \<and>
   stdout (app (example_env (\<lambda>b. Inr \<lparr>width = 2, height = 1, pixels = b\<rparr>)
               (\<lambda>img. Inl (External ''onnxruntime: failed to allocate memory'')))
            (Some \<lparr>file_name = ''cat.png'', file_data = [1, 2, 3, 255, 4, 5, 6, 255]\<rparr>) 0 1 blank)
     = []"
    using processing_failure_report
      [where f = "\<lparr>file_name = ''cat.png'', file_data = [1, 2, 3, 255, 4, 5, 6, 255]\<rparr>"
         and env = "example_env (\<lambda>b. Inr \<lparr>width = 2, height = 1, pixels = b\<rparr>)
               (\<lambda>img. Inl (External ''onnxruntime: failed to allocate memory''))"
         and e = "External ''onnxruntime: failed to allocate memory''"
         and start = 0 and finish = 1 and s = blank]
    by (simp add: blank_def example_env_def file_size_def MAX_FILE_SIZE_def MAX_IMAGE_SIZE_def
        resize_image_def)
  have second: "page (app ((example_env (\<lambda>b. Inr \<lparr>width = 2, height = 1, pixels = b\<rparr>) Inr)
                 \<lparr>save_png := \<lambda>img. Inl (External ''cannot write mode RGBA'')\<rparr>)
            (Some \<lparr>file_name = ''cat.png'', file_data = [1, 2, 3, 255, 4, 5, 6, 255]\<rparr>) 0 1 blank)
     = [Progress 0, Status Reading, Progress 10, Status Processing, Progress 30,
        Progress 90, Status Displaying,
        Picture \<lparr>width = 2, height = 1, pixels = [1, 2, 3, 255, 4, 5, 6, 255]\<rparr> ''Original Image'',
        Picture \<lparr>width = 2, height = 1, pixels = [1, 2, 3, 255, 4, 5, 6, 255]\<rparr>
          ''Background Removed'',
        Error ''An unexpected error occurred.'', SidebarError ''Processing failed.''] \<and>
   stdout (app ((example_env (\<lambda>b. Inr \<lparr>width = 2, height = 1, pixels = b\<rparr>) Inr)
                 \<lparr>save_png := \<lambda>img. Inl (External ''cannot write mode RGBA'')\<rparr>)
            (Some \<lparr>file_name = ''cat.png'', file_data = [1, 2, 3, 255, 4, 5, 6, 255]\<rparr>) 0 1 blank)
     = [Traceback (External ''cannot write mode RGBA'')]"
    using processing_failure_report
      [where f = "\<lparr>file_name = ''cat.png'', file_data = [1, 2, 3, 255, 4, 5, 6, 255]\<rparr>"
         and env = "(example_env (\<lambda>b. Inr \<lparr>width = 2, height = 1, pixels = b\<rparr>) Inr)
                 \<lparr>save_png := \<lambda>img. Inl (External ''cannot write mode RGBA'')\<rparr>"
         and decoded = "\<lparr>width = 2, height = 1, pixels = [1, 2, 3, 255, 4, 5, 6, 255]\<rparr>"
         and shrunk = "\<lparr>width = 2, height = 1, pixels = [1, 2, 3, 255, 4, 5, 6, 255]\<rparr>"
         and result = "\<lparr>width = 2, height = 1, pixels = [1, 2, 3, 255, 4, 5, 6, 255]\<rparr>"
         and e' = "External ''cannot write mode RGBA''"
         and start = 0 and finish = 1 and s = blank]
    by (simp add: blank_def example_env_def file_size_def MAX_FILE_SIZE_def MAX_IMAGE_SIZE_def
        resize_image_def convert_image_def)
  from first second show ?thesis by blast
qed

theorem removal_failure_text_shown_counterexample:
  "page (app (example_env (\<lambda>b. Inr \<lparr>width = 1, height = 1, pixels = b\<rparr>)
               (\<lambda>img. Inl (External ''CUDA out of memory (device 0, pid 4711)'')))
            (Some \<lparr>file_name = ''dot.png'', file_data = [9, 9, 9, 255]\<rparr>) 0 1 blank)
     = [Progress 0, Status Reading, Progress 10, Status Processing, Progress 30,
        Error ''Image processing error: CUDA out of memory (device 0, pid 4711)''] \<and>
   stdout (app (example_env (\<lambda>b. Inr \<lparr>width = 1, height = 1, pixels = b\<rparr>)
               (\<lambda>img. Inl (External ''CUDA out of memory (device 0, pid 4711)'')))
            (Some \<lparr>file_name = ''dot.png'', file_data = [9, 9, 9, 255]\<rparr>) 0 1 blank)
     = []"
  by (simp add: app_def fix_image_def process_image_def processing_error_def Let_def
      blank_def example_env_def file_size_def MAX_FILE_SIZE_def MAX_IMAGE_SIZE_def
      resize_image_def emit_def enter_def)

text \<open>
  C6. On a run in which decoding, resizing, removal and PNG encoding all succeed,
  \<open>process_image\<close> returns the decoded raster, as it was before resizing, together
  with the processed raster; the page shows both, the decoded one under the caption
  of the original, then the download button, progress 100 and the completion status
  with the elapsed time \<open>finish - start\<close> of the two clock readings.
\<close>

theorem successful_run_output:
  assumes "file_size f \<le> MAX_FILE_SIZE"
    and "decode env (file_data f) = Inr img"
    and "resize_image (lanczos env) img MAX_IMAGE_SIZE = Inr resized"
    and "remove env resized = Inr result"
    and "convert_image env result = Inr content"
  shows "fst (process_image env (file_data f) s') = (Some img, Some result) \<and>
         page (app env (Some f) start finish s)
           = page s @ [Progress 0, Status Reading, Progress 10, Status Processing, Progress 30,
                       Progress 90, Status Displaying,
                       Picture img ''Original Image'', Picture result ''Background Removed'',
                       DownloadButton ''Download Output (PNG)'' content
                         ''removed_background.png'' ''image/png'',
                       Progress 100, Status (Completed (round_double (finish - start)))]"
proof -
  let ?s3 = "emit (Progress 30) (emit (Status Processing)
                 (emit (Progress 10) (emit (Status Reading) (emit (Progress 0) s))))"
  have "fix_image env f start finish s
          = show_result env img result start finish (enter Remove (enter Resize (enter Decode ?s3)))"
    by (rule fix_image_done) (rule process_image_succeeds [OF assms(2,3,4)])
  then have "page (app env (Some f) start finish s)
               = page (show_result env img result start finish
                         (enter Remove (enter Resize (enter Decode ?s3))))"
    using assms(1) by (simp add: app_def)
  then show ?thesis
    by (simp add: show_result_page assms(5) process_image_succeeds [OF assms(2,3,4)])
qed

theorem successful_run_output_witness:
  "page (app (example_env (\<lambda>b. Inr \<lparr>width = 3000, height = 1000, pixels = b\<rparr>)
               (\<lambda>img. Inr (img\<lparr>pixels := [0, 0, 0, 0]\<rparr>)))
            (Some \<lparr>file_name = ''wide.jpg'', file_data = [7, 7, 7, 255]\<rparr>) 10 (25 / 2) blank)
     = [Progress 0, Status Reading, Progress 10, Status Processing, Progress 30,
        Progress 90, Status Displaying,
        Picture \<lparr>width = 3000, height = 1000, pixels = [7, 7, 7, 255]\<rparr> ''Original Image'',
        Picture \<lparr>width = 2000, height = 666, pixels = [0, 0, 0, 0]\<rparr> ''Background Removed'',
        DownloadButton ''Download Output (PNG)'' [0, 0, 0, 0]
          ''removed_background.png'' ''image/png'',
        Progress 100, Status (Completed (round_double (25 / 2 - 10)))]"
  using successful_run_output
    [of "\<lparr>file_name = ''wide.jpg'', file_data = [7, 7, 7, 255]\<rparr>"
        "example_env (\<lambda>b. Inr \<lparr>width = 3000, height = 1000, pixels = b\<rparr>)
               (\<lambda>img. Inr (img\<lparr>pixels := [0, 0, 0, 0]\<rparr>))"
        "\<lparr>width = 3000, height = 1000, pixels = [7, 7, 7, 255]\<rparr>"
        "\<lparr>width = 2000, height = 666, pixels = []\<rparr>"
        "\<lparr>width = 2000, height = 666, pixels = [0, 0, 0, 0]\<rparr>"
        "[0, 0, 0, 0]" blank 10 "25 / 2" blank]
  by (simp add: blank_def example_env_def example_resample_def file_size_def MAX_FILE_SIZE_def
      MAX_IMAGE_SIZE_def resize_image_def new_size_3000_1000 convert_image_def)

lemma process_image_same_collaborators:
  "decode env2 = decode env1 \<Longrightarrow> lanczos env2 = lanczos env1 \<Longrightarrow> remove env2 = remove env1 \<Longrightarrow>
     process_image env2 b s = process_image env1 b s"
  by (auto simp: process_image_def Let_def split: sum.splits)

lemma cached_process_image_stores:
  "snd (cached_process_image env cache b) b = Some (fst (cached_process_image env cache b))"
  by (cases "cache b") (simp_all add: cached_process_image_def Let_def)

lemma cached_process_image_hit:
  "cache b = Some r \<Longrightarrow> fst (cached_process_image env cache b) = r"
  by (simp add: cached_process_image_def)

lemma cached_process_image_miss:
  "cache b = None \<Longrightarrow>
     fst (cached_process_image env cache b) = fst (process_image env b s)"
  using process_image_result_indep [of env b blank s]
  by (simp add: cached_process_image_def Let_def)

text \<open>
  C8. The decoder and the removal model are external and need not return the same
  result at two different times; \<open>env1\<close> is what the collaborators do at the first
  call and \<open>env2\<close> what they do at the second. Calling the memoised function twice on
  the same bytes returns the identical pair both times, since the second call is
  answered from the cache. On a first call without a cache entry the pair is what the
  body computes, the decoded and the processed raster when decoding, resizing and
  removal succeed. The cached pair equals a recomputation when the decoder, the
  resampling filter and the removal model are the same functions at both calls.
\<close>

theorem cached_process_image_repeatable:
  "fst (cached_process_image env2 (snd (cached_process_image env1 cache b)) b)
     = fst (cached_process_image env1 cache b) \<and>
   (cache b = None \<longrightarrow>
      fst (cached_process_image env1 cache b) = fst (process_image env1 b s)) \<and>
   (cache b = None \<and> decode env1 b = Inr img \<and>
    resize_image (lanczos env1) img MAX_IMAGE_SIZE = Inr resized \<and>
    remove env1 resized = Inr result \<longrightarrow>
      fst (cached_process_image env2 (snd (cached_process_image env1 cache b)) b)
        = (Some img, Some result)) \<and>
   (cache b = None \<and> decode env2 = decode env1 \<and> lanczos env2 = lanczos env1 \<and>
    remove env2 = remove env1 \<longrightarrow>
      fst (cached_process_image env2 (snd (cached_process_image env1 cache b)) b)
        = fst (process_image env2 b s))"
proof -
  have again: "fst (cached_process_image env2 (snd (cached_process_image env1 cache b)) b)
                 = fst (cached_process_image env1 cache b)"
    by (rule cached_process_image_hit) (rule cached_process_image_stores)
  have miss: "cache b = None \<longrightarrow>
      fst (cached_process_image env1 cache b) = fst (process_image env1 b s)"
    by (simp add: cached_process_image_miss)
  have ok: "cache b = None \<and> decode env1 b = Inr img \<and>
      resize_image (lanczos env1) img MAX_IMAGE_SIZE = Inr resized \<and>
      remove env1 resized = Inr result \<longrightarrow>
        fst (cached_process_image env2 (snd (cached_process_image env1 cache b)) b)
          = (Some img, Some result)"
  proof
    assume h: "cache b = None \<and> decode env1 b = Inr img \<and>
      resize_image (lanczos env1) img MAX_IMAGE_SIZE = Inr resized \<and>
      remove env1 resized = Inr result"
    then have "fst (process_image env1 b s) = (Some img, Some result)"
      by (simp add: process_image_succeeds)
    then show "fst (cached_process_image env2 (snd (cached_process_image env1 cache b)) b)
          = (Some img, Some result)"
      using again miss h by simp
  qed
  have same: "cache b = None \<and> decode env2 = decode env1 \<and> lanczos env2 = lanczos env1 \<and>
      remove env2 = remove env1 \<longrightarrow>
        fst (cached_process_image env2 (snd (cached_process_image env1 cache b)) b)
          = fst (process_image env2 b s)"
  proof
    assume h: "cache b = None \<and> decode env2 = decode env1 \<and> lanczos env2 = lanczos env1 \<and>
      remove env2 = remove env1"
    then have "process_image env2 b s = process_image env1 b s"
      by (intro process_image_same_collaborators) simp_all
    then show "fst (cached_process_image env2 (snd (cached_process_image env1 cache b)) b)
          = fst (process_image env2 b s)"
      using again miss h by simp
  qed
  from again miss ok same show ?thesis by blast
qed

theorem cached_process_image_repeatable_witness:
  "fst (cached_process_image
          (example_env (\<lambda>b. Inr \<lparr>width = 1, height = 1, pixels = b\<rparr>) Inr)
          (snd (cached_process_image
                  (example_env (\<lambda>b. Inr \<lparr>width = 1, height = 1, pixels = b\<rparr>) Inr)
                  Map.empty [9, 9, 9, 255]))
          [9, 9, 9, 255])
     = (Some \<lparr>width = 1, height = 1, pixels = [9, 9, 9, 255]\<rparr>,
        Some \<lparr>width = 1, height = 1, pixels = [9, 9, 9, 255]\<rparr>) \<and>
   fst (cached_process_image
          (example_env (\<lambda>b. Inr \<lparr>width = 1, height = 1, pixels = b\<rparr>) Inr)
          Map.empty [9, 9, 9, 255])
     = (Some \<lparr>width = 1, height = 1, pixels = [9, 9, 9, 255]\<rparr>,
        Some \<lparr>width = 1, height = 1, pixels = [9, 9, 9, 255]\<rparr>)"
proof -
  let ?env = "example_env (\<lambda>b. Inr \<lparr>width = 1, height = 1, pixels = b\<rparr>) Inr"
  let ?img = "\<lparr>width = 1, height = 1, pixels = [9, 9, 9, 255]\<rparr>"
  have h: "(Map.empty :: cache) [9, 9, 9, 255] = None \<and> decode ?env [9, 9, 9, 255] = Inr ?img \<and>
           resize_image (lanczos ?env) ?img MAX_IMAGE_SIZE = Inr ?img \<and>
           remove ?env ?img = Inr ?img"
    by (simp add: example_env_def MAX_IMAGE_SIZE_def resize_image_def)
  note t = cached_process_image_repeatable
    [where ?env1.0 = ?env and ?env2.0 = ?env and cache = Map.empty and b = "[9, 9, 9, 255]"
       and img = ?img and resized = ?img and result = ?img and s = blank]
  from t h have second:
    "fst (cached_process_image ?env (snd (cached_process_image ?env Map.empty [9, 9, 9, 255]))
            [9, 9, 9, 255]) = (Some ?img, Some ?img)"
    by blast
  from t have "fst (cached_process_image ?env
                      (snd (cached_process_image ?env Map.empty [9, 9, 9, 255])) [9, 9, 9, 255])
                 = fst (cached_process_image ?env Map.empty [9, 9, 9, 255])"
    by blast
  with second show ?thesis by simp
qed

theorem cached_failure_differs_from_recomputation_counterexample:
  "fst (process_image
          (example_env (\<lambda>b. Inr \<lparr>width = 1, height = 1, pixels = b\<rparr>)
             (\<lambda>img. Inl (External ''failed to allocate memory'')))
          [9, 9, 9, 255] blank) = (None, None) \<and>
   fst (process_image
          (example_env (\<lambda>b. Inr \<lparr>width = 1, height = 1, pixels = b\<rparr>) Inr)
          [9, 9, 9, 255] blank)
     = (Some \<lparr>width = 1, height = 1, pixels = [9, 9, 9, 255]\<rparr>,
        Some \<lparr>width = 1, height = 1, pixels = [9, 9, 9, 255]\<rparr>) \<and>
   fst (cached_process_image
          (example_env (\<lambda>b. Inr \<lparr>width = 1, height = 1, pixels = b\<rparr>) Inr)
          (snd (cached_process_image
                  (example_env (\<lambda>b. Inr \<lparr>width = 1, height = 1, pixels = b\<rparr>)
                     (\<lambda>img. Inl (External ''failed to allocate memory'')))
                  Map.empty [9, 9, 9, 255]))
          [9, 9, 9, 255]) = (None, None)"
proof -
  let ?bad = "example_env (\<lambda>b. Inr \<lparr>width = 1, height = 1, pixels = b\<rparr>)
                (\<lambda>img. Inl (External ''failed to allocate memory''))"
  let ?good = "example_env (\<lambda>b. Inr \<lparr>width = 1, height = 1, pixels = b\<rparr>) Inr"
  let ?img = "\<lparr>width = 1, height = 1, pixels = [9, 9, 9, 255]\<rparr>"
  have rs: "resize_image example_resample ?img MAX_IMAGE_SIZE = Inr ?img"
    by (simp add: MAX_IMAGE_SIZE_def resize_image_def)
  have "process_image ?bad [9, 9, 9, 255] blank
          = processing_error (External ''failed to allocate memory'')
              (enter Remove (enter Resize (enter Decode blank)))"
    by (rule process_image_remove_fails [where img = ?img and resized = ?img])
       (simp_all add: example_env_def rs)
  then have p1: "fst (process_image ?bad [9, 9, 9, 255] blank) = (None, None)"
    by simp
  have "process_image ?good [9, 9, 9, 255] blank
          = ((Some ?img, Some ?img), enter Remove (enter Resize (enter Decode blank)))"
    by (rule process_image_succeeds [where resized = ?img])
       (simp_all add: example_env_def rs)
  then have p2: "fst (process_image ?good [9, 9, 9, 255] blank) = (Some ?img, Some ?img)"
    by simp
  have first: "fst (cached_process_image ?bad Map.empty [9, 9, 9, 255]) = (None, None)"
    using cached_process_image_miss [of Map.empty "[9, 9, 9, 255]" ?bad blank] p1 by simp
  have "fst (cached_process_image ?good
               (snd (cached_process_image ?bad Map.empty [9, 9, 9, 255])) [9, 9, 9, 255])
          = fst (cached_process_image ?bad Map.empty [9, 9, 9, 255])"
    by (rule cached_process_image_hit) (rule cached_process_image_stores)
  with first p1 p2 show ?thesis by simp
qed

text \<open>
  C9. In a run of \<open>fix_image\<close> the progress values put on the page are, in order,
  0, 10, 30 and, when processing succeeded, 90 and then 100 once the download button
  is shown: they increase strictly and lie between 0 and 100. \<open>process_image\<close> adds no
  progress value, so only \<open>fix_image\<close> sets them.
\<close>

theorem progress_increases:
  "\<exists>ps. progress_values (page (fix_image env f start finish s))
           = progress_values (page s) @ ps \<and>
        (ps = [0, 10, 30] \<or> ps = [0, 10, 30, 90] \<or> ps = [0, 10, 30, 90, 100]) \<and>
        sorted_wrt (<) ps \<and> (\<forall>p \<in> set ps. 0 \<le> p \<and> p \<le> 100) \<and>
        progress_values (page (snd (process_image env b s'))) = progress_values (page s')"
proof -
  let ?s3 = "emit (Progress 30) (emit (Status Processing)
                 (emit (Progress 10) (emit (Status Reading) (emit (Progress 0) s))))"
  have s3: "progress_values (page ?s3) = progress_values (page s) @ [0, 10, 30]"
    by (simp add: progress_values_def)
  obtain r s4 where p: "process_image env (file_data f) ?s3 = (r, s4)"
    by (cases "process_image env (file_data f) ?s3")
  have s4: "progress_values (page s4) = progress_values (page s) @ [0, 10, 30]"
    using process_image_progress [of env "file_data f" ?s3] p s3 by simp
  have "\<exists>ps. progress_values (page (fix_image env f start finish s))
           = progress_values (page s) @ ps \<and>
        (ps = [0, 10, 30] \<or> ps = [0, 10, 30, 90] \<or> ps = [0, 10, 30, 90, 100])"
  proof (cases r)
    case (Pair original removed)
    show ?thesis
    proof (cases "\<exists>img result. original = Some img \<and> removed = Some result")
      case True
      then obtain img result where ok: "original = Some img" "removed = Some result" by blast
      have "fix_image env f start finish s = show_result env img result start finish s4"
        using p Pair ok by (intro fix_image_done) simp
      then show ?thesis
        using s4 by (cases "convert_image env result")
          (simp_all add: show_result_page progress_values_def)
    next
      case False
      then have "fix_image env f start finish s = s4"
        using p Pair by (auto simp: fix_image_def Let_def split: option.splits)
      then show ?thesis using s4 by simp
    qed
  qed
  then obtain ps where ps: "progress_values (page (fix_image env f start finish s))
           = progress_values (page s) @ ps"
      "ps = [0, 10, 30] \<or> ps = [0, 10, 30, 90] \<or> ps = [0, 10, 30, 90, 100]"
    by blast
  have "sorted_wrt (<) ps \<and> (\<forall>p \<in> set ps. 0 \<le> p \<and> p \<le> 100)"
    using ps(2) by auto
  then show ?thesis using ps process_image_progress by blast
qed

theorem progress_increases_witness:
  "\<exists>ps. progress_values (page (fix_image
              (example_env (\<lambda>b. Inr \<lparr>width = 1, height = 1, pixels = b\<rparr>) Inr)
              \<lparr>file_name = ''dot.png'', file_data = [9, 9, 9, 255]\<rparr> 0 1 blank)) = ps \<and>
        sorted_wrt (<) ps \<and> (\<forall>p \<in> set ps. 0 \<le> p \<and> p \<le> 100)"
  using progress_increases
    [of "example_env (\<lambda>b. Inr \<lparr>width = 1, height = 1, pixels = b\<rparr>) Inr"
        "\<lparr>file_name = ''dot.png'', file_data = [9, 9, 9, 255]\<rparr>" 0 1 blank]
  by (auto simp: blank_def progress_values_def)

end
